theory Spec2Isabelle
  imports Main "HOL-Library.Word"
begin

section \<open>Python values read from the mappings file\<close>

text \<open>
  Both engines read \<^verbatim>\<open>port_mappings.json\<close> with \<^verbatim>\<open>json.loads\<close>. The value it
  returns is \<^verbatim>\<open>None\<close>, a bool, an int, a str, a list or a dict with string keys. JSON
  numbers with a fraction (Python floats) are left out of the model.
\<close>

datatype json =
    JNull
  | JBool bool
  | JNum int
  | JStr string
  | JArr "json list"
  | JObj "(string \<times> json) list"

datatype py_error =
    KeyError
  | TypeError
  | AttributeError
  | RuntimeError
  | OSError
  | KeyboardInterrupt

text \<open>
  The classes an \<^verbatim>\<open>except Exception\<close> clause catches. Every socket error is an
  \<^verbatim>\<open>OSError\<close>; \<^verbatim>\<open>KeyboardInterrupt\<close> derives from \<^verbatim>\<open>BaseException\<close> only.
\<close>

fun is_Exception :: "py_error \<Rightarrow> bool" where
  "is_Exception KeyboardInterrupt = False"
| "is_Exception e = True"

text \<open>Truth value of a Python object, as \<^verbatim>\<open>if v:\<close> tests it.\<close>

fun truthy :: "json \<Rightarrow> bool" where
  "truthy JNull = False"
| "truthy (JBool b) = b"
| "truthy (JNum i) = (i \<noteq> 0)"
| "truthy (JStr s) = (s \<noteq> [])"
| "truthy (JArr xs) = (xs \<noteq> [])"
| "truthy (JObj kvs) = (kvs \<noteq> [])"

text \<open>\<^verbatim>\<open>m.get(k, default)\<close>: only a dict has the method.\<close>

fun py_get :: "json \<Rightarrow> string \<Rightarrow> json \<Rightarrow> py_error + json" where
  "py_get (JObj kvs) k d = Inr (case map_of kvs k of None \<Rightarrow> d | Some v \<Rightarrow> v)"
| "py_get _ k d = Inl AttributeError"

text \<open>
  \<^verbatim>\<open>m[k]\<close> with a string key: \<^verbatim>\<open>KeyError\<close> on a dict without the key,
  \<^verbatim>\<open>TypeError\<close> on every other value (a str or a list wants an integer index, the
  rest is not subscriptable).
\<close>

fun py_item :: "json \<Rightarrow> string \<Rightarrow> py_error + json" where
  "py_item (JObj kvs) k = (case map_of kvs k of None \<Rightarrow> Inl KeyError | Some v \<Rightarrow> Inr v)"
| "py_item _ k = Inl TypeError"

text \<open>
  \<^verbatim>\<open>for m in mappings\<close>: a list yields its elements, a dict its keys, a str its
  characters; the other values are not iterable.
\<close>

fun py_iter :: "json \<Rightarrow> py_error + json list" where
  "py_iter (JArr xs) = Inr xs"
| "py_iter (JObj kvs) = Inr (map (\<lambda>kv. JStr (fst kv)) kvs)"
| "py_iter (JStr s) = Inr (map (\<lambda>c. JStr [c]) s)"
| "py_iter _ = Inl TypeError"

text \<open>
  Dict keys. A list or a dict is unhashable and cannot be a key. Python compares keys with
  \<^verbatim>\<open>==\<close>, under which \<^verbatim>\<open>True == 1\<close> and \<^verbatim>\<open>False == 0\<close>: \<open>py_eq\<close> is that
  equality on the hashable values.
\<close>

fun hashable :: "json \<Rightarrow> bool" where
  "hashable (JArr xs) = False"
| "hashable (JObj kvs) = False"
| "hashable _ = True"

fun key_norm :: "json \<Rightarrow> json" where
  "key_norm (JBool b) = JNum (if b then 1 else 0)"
| "key_norm j = j"

definition py_eq :: "json \<Rightarrow> json \<Rightarrow> bool" where
  "py_eq a b = (key_norm a = key_norm b)"

text \<open>
  A Python dict keeps insertion order and one entry per key: an association list, looked
  up, updated in place and deleted from with \<open>py_eq\<close>.
\<close>

type_synonym 'v pydict = "(json \<times> 'v) list"

fun dict_find :: "'v pydict \<Rightarrow> json \<Rightarrow> 'v option" where
  "dict_find [] k = None"
| "dict_find ((k', v) # d) k = (if py_eq k' k then Some v else dict_find d k)"

fun dict_store :: "'v pydict \<Rightarrow> json \<Rightarrow> 'v \<Rightarrow> 'v pydict" where
  "dict_store [] k v = [(k, v)]"
| "dict_store ((k', v') # d) k v =
     (if py_eq k' k then (k', v) # d else (k', v') # dict_store d k v)"

fun dict_del :: "'v pydict \<Rightarrow> json \<Rightarrow> 'v pydict" where
  "dict_del [] k = []"
| "dict_del ((k', v') # d) k = (if py_eq k' k then d else (k', v') # dict_del d k)"

definition dict_keys :: "'v pydict \<Rightarrow> json list" where
  "dict_keys d = map fst d"

text \<open>The ports of a dict as Python tells them apart.\<close>

definition port_set :: "'v pydict \<Rightarrow> json set" where
  "port_set d = key_norm ` set (dict_keys d)"

definition one_per_port :: "'v pydict \<Rightarrow> bool" where
  "one_per_port d = distinct (map key_norm (dict_keys d))"

text \<open>
  The mappings file as a load sees it: missing (\<^verbatim>\<open>exists()\<close> is false), unreadable
  (\<^verbatim>\<open>exists\<close>, \<^verbatim>\<open>read_text\<close> or \<^verbatim>\<open>json.loads\<close> raises), or parsed.
\<close>

datatype file_state = Absent | Unreadable | Content json

section \<open>Formatting a value into the upstream URL\<close>

text \<open>
  The f-string \<^verbatim>\<open>f"http://{target_server}:{target_port}"\<close> formats each value with
  \<^verbatim>\<open>str\<close>: a str is itself, an int its decimal digits, \<^verbatim>\<open>True\<close>, \<^verbatim>\<open>False\<close>
  and \<^verbatim>\<open>None\<close> their names. The text of a list or a dict (Python's \<^verbatim>\<open>repr\<close>) is
  the parameter \<open>repr\<close>.
\<close>

definition digit_char :: "nat \<Rightarrow> char" where
  "digit_char n = ''0123456789'' ! n"

fun show_nat :: "nat \<Rightarrow> string" where
  "show_nat n = (if n < 10 then [digit_char n] else show_nat (n div 10) @ [digit_char (n mod 10)])"

declare show_nat.simps [simp del]

definition show_int :: "int \<Rightarrow> string" where
  "show_int i = (if i < 0 then CHR ''-'' # show_nat (nat (- i)) else show_nat (nat i))"

fun py_str :: "(json \<Rightarrow> string) \<Rightarrow> json \<Rightarrow> string" where
  "py_str repr JNull = ''None''"
| "py_str repr (JBool b) = (if b then ''True'' else ''False'')"
| "py_str repr (JNum i) = show_int i"
| "py_str repr (JStr s) = s"
| "py_str repr v = repr v"

definition target_url :: "(json \<Rightarrow> string) \<Rightarrow> json \<Rightarrow> json \<Rightarrow> string" where
  "target_url repr server port = ''http://'' @ py_str repr server @ '':'' @ py_str repr port"

section \<open>Loading the mappings\<close>

subsection \<open>PortForwarder.load_mappings\<close>

text \<open>
  The comprehension \<^verbatim>\<open>[m for m in mappings if m.get('is_active', True)]\<close>: an element
  without the method raises and the whole comprehension is lost.
\<close>

fun active_only :: "json list \<Rightarrow> py_error + json list" where
  "active_only [] = Inr []"
| "active_only (m # ms) =
     (case py_get m ''is_active'' (JBool True) of
        Inl e \<Rightarrow> Inl e
      | Inr v \<Rightarrow>
          (case active_only ms of
             Inl e \<Rightarrow> Inl e
           | Inr r \<Rightarrow> Inr (if truthy v then m # r else r)))"

text \<open>Every exception is caught and answered with the empty list.\<close>

definition PortForwarder_load_mappings :: "file_state \<Rightarrow> json list" where
  "PortForwarder_load_mappings f =
     (case f of
        Absent \<Rightarrow> []
      | Unreadable \<Rightarrow> []
      | Content j \<Rightarrow>
          (case py_iter j of
             Inl e \<Rightarrow> []
           | Inr ms \<Rightarrow> (case active_only ms of Inl e \<Rightarrow> [] | Inr r \<Rightarrow> r)))"

subsection \<open>ProxyServer.load_mappings\<close>

text \<open>One turn of the loop over the mappings: the route table after it, or the exception.\<close>

definition route_step :: "(json \<Rightarrow> string) \<Rightarrow> json \<Rightarrow> string pydict \<Rightarrow> py_error + string pydict" where
  "route_step repr m routes =
     (case py_get m ''is_active'' (JBool True) of
        Inl e \<Rightarrow> Inl e
      | Inr v \<Rightarrow>
          if truthy v then
            (case py_item m ''external_port'' of
               Inl e \<Rightarrow> Inl e
             | Inr external_port \<Rightarrow>
                 (case py_item m ''target_server'' of
                    Inl e \<Rightarrow> Inl e
                  | Inr server \<Rightarrow>
                      (case py_item m ''target_port'' of
                         Inl e \<Rightarrow> Inl e
                       | Inr port \<Rightarrow>
                           if hashable external_port
                           then Inr (dict_store routes external_port (target_url repr server port))
                           else Inl TypeError)))
          else Inr routes)"

text \<open>
  The loop writes \<^verbatim>\<open>self.routes\<close> as it goes: an exception in the middle leaves the
  routes stored so far.
\<close>

fun route_loop :: "(json \<Rightarrow> string) \<Rightarrow> json list \<Rightarrow> string pydict \<Rightarrow> string pydict" where
  "route_loop repr [] routes = routes"
| "route_loop repr (m # ms) routes =
     (case route_step repr m routes of
        Inl e \<Rightarrow> routes
      | Inr routes' \<Rightarrow> route_loop repr ms routes')"

text \<open>
  The table is emptied only once the file is read and parsed; a missing or unreadable file
  leaves the old table. The method has no \<^verbatim>\<open>return\<close>: its value is \<^verbatim>\<open>None\<close>.
\<close>

definition ProxyServer_load_mappings :: "(json \<Rightarrow> string) \<Rightarrow> file_state \<Rightarrow> string pydict \<Rightarrow> string pydict" where
  "ProxyServer_load_mappings repr f routes =
     (case f of
        Absent \<Rightarrow> routes
      | Unreadable \<Rightarrow> routes
      | Content j \<Rightarrow>
          (case py_iter j of
             Inl e \<Rightarrow> []
           | Inr ms \<Rightarrow> route_loop repr ms []))"

text \<open>
  A record of the mapping store: a dict with the three fields the engines read, and a port
  that can be a dict key.
\<close>

fun mapping_record :: "json \<Rightarrow> bool" where
  "mapping_record (JObj kvs) =
     (case map_of kvs ''external_port'' of
        None \<Rightarrow> False
      | Some p \<Rightarrow> hashable p \<and> map_of kvs ''target_server'' \<noteq> None \<and> map_of kvs ''target_port'' \<noteq> None)"
| "mapping_record _ = False"

fun has_field :: "json \<Rightarrow> string \<Rightarrow> bool" where
  "has_field (JObj kvs) k = (map_of kvs k \<noteq> None)"
| "has_field _ k = False"

definition is_active_flag :: "json \<Rightarrow> bool" where
  "is_active_flag m =
     (case py_get m ''is_active'' (JBool True) of Inl e \<Rightarrow> False | Inr v \<Rightarrow> truthy v)"

section \<open>The TCP port forwarder\<close>

subsection \<open>ForwardThread: one listener\<close>

text \<open>
  \<open>server_socket\<close> is \<^verbatim>\<open>None\<close> until \<^verbatim>\<open>run\<close> creates the socket; a socket object is
  open or closed.
\<close>

datatype sock_state = NoSocket | SockOpen | SockClosed

record forward_thread =
  external_port :: json
  target_host :: json
  target_port :: json
  is_active :: bool
  connection_count :: nat
  server_socket :: sock_state
  buffer_size :: nat
  timeout :: nat

definition ForwardThread_init :: "json \<Rightarrow> json \<Rightarrow> json \<Rightarrow> forward_thread" where
  "ForwardThread_init port host tport =
     \<lparr>external_port = port, target_host = host, target_port = tport, is_active = False,
      connection_count = 0, server_socket = NoSocket, buffer_size = 8192, timeout = 30\<rparr>"

text \<open>
  What the operating system answers. \<open>thread_starts\<close>: \<^verbatim>\<open>Thread.start()\<close> returns (it
  raises \<^verbatim>\<open>RuntimeError\<close> when no thread can be created). \<open>bind_listen\<close>: how the
  set-up of the listening socket on a port ends, at \<^verbatim>\<open>socket.socket\<close>, or later at
  \<^verbatim>\<open>setsockopt\<close>, \<^verbatim>\<open>bind\<close>, \<^verbatim>\<open>listen\<close> or \<^verbatim>\<open>settimeout\<close>, or with a
  listening socket.
\<close>

datatype bind_result = SocketFails | BindFails | Bound

record os_env =
  thread_starts :: "json \<Rightarrow> bool"
  bind_listen :: "json \<Rightarrow> bind_result"

text \<open>
  \<^verbatim>\<open>ForwardThread.run\<close> up to its accept loop. An exception goes to \<^verbatim>\<open>except\<close> and
  \<^verbatim>\<open>finally\<close>: \<open>is_active\<close> stays false and the socket, when there is one, is closed.
  Only after \<^verbatim>\<open>bind\<close> and \<^verbatim>\<open>listen\<close> is \<open>is_active\<close> set.
\<close>

definition ForwardThread_run :: "os_env \<Rightarrow> forward_thread \<Rightarrow> forward_thread" where
  "ForwardThread_run env t =
     (case bind_listen env (external_port t) of
        SocketFails \<Rightarrow> t\<lparr>is_active := False\<rparr>
      | BindFails \<Rightarrow> t\<lparr>is_active := False, server_socket := SockClosed\<rparr>
      | Bound \<Rightarrow> t\<lparr>is_active := True, server_socket := SockOpen\<rparr>)"

definition ForwardThread_stop :: "forward_thread \<Rightarrow> forward_thread" where
  "ForwardThread_stop t =
     t\<lparr>is_active := False,
       server_socket := (if server_socket t = NoSocket then NoSocket else SockClosed)\<rparr>"

subsection \<open>PortForwarder: the listeners by port\<close>

text \<open>
  \<open>active_forwards\<close> maps a port to its \<^verbatim>\<open>ForwardThread\<close> object. Objects have an
  identity and are changed in place (\<^verbatim>\<open>stop\<close>), so they live in a store, \<open>threads\<close>,
  and the dict holds their addresses (positions in the store).
\<close>

record forwarder =
  active_forwards :: "nat pydict"
  is_running :: bool
  threads :: "forward_thread list"

definition PortForwarder_init :: forwarder where
  "PortForwarder_init = \<lparr>active_forwards = [], is_running = False, threads = []\<rparr>"

definition thread_update :: "nat \<Rightarrow> (forward_thread \<Rightarrow> forward_thread) \<Rightarrow> forward_thread list \<Rightarrow> forward_thread list" where
  "thread_update a f ts = (if a < length ts then ts[a := f (ts ! a)] else ts)"

text \<open>
  \<^verbatim>\<open>start_forwarding\<close>. The membership test hashes the port, outside the \<^verbatim>\<open>try\<close>. The
  thread is started, the caller sleeps 0.1 s, stores the thread and answers \<^verbatim>\<open>True\<close>;
  nothing reads what \<^verbatim>\<open>run\<close> did. The model lets \<^verbatim>\<open>run\<close> reach its accept loop, or
  fail, within the sleep.
\<close>

definition start_forwarding ::
  "os_env \<Rightarrow> json \<Rightarrow> json \<Rightarrow> json \<Rightarrow> forwarder \<Rightarrow> (py_error + bool) \<times> forwarder" where
  "start_forwarding env port host tport s =
     (if \<not> hashable port then (Inl TypeError, s)
      else if dict_find (active_forwards s) port \<noteq> None then (Inr False, s)
      else if \<not> thread_starts env port then (Inr False, s)
      else (Inr True,
            s\<lparr>active_forwards := dict_store (active_forwards s) port (length (threads s)),
              threads := threads s @ [ForwardThread_run env (ForwardThread_init port host tport)]\<rparr>))"

definition stop_forwarding :: "json \<Rightarrow> forwarder \<Rightarrow> (py_error + bool) \<times> forwarder" where
  "stop_forwarding port s =
     (if \<not> hashable port then (Inl TypeError, s)
      else case dict_find (active_forwards s) port of
             None \<Rightarrow> (Inr False, s)
           | Some a \<Rightarrow>
               (Inr True,
                s\<lparr>active_forwards := dict_del (active_forwards s) port,
                  threads := thread_update a ForwardThread_stop (threads s)\<rparr>))"

text \<open>
  The loop of \<^verbatim>\<open>start_all_forwards\<close>. A mapping without one of the three fields raises
  \<^verbatim>\<open>KeyError\<close> out of the method; the listeners started before it stay.
\<close>

fun start_each :: "os_env \<Rightarrow> json list \<Rightarrow> forwarder \<Rightarrow> py_error option \<times> forwarder" where
  "start_each env [] s = (None, s)"
| "start_each env (m # ms) s =
     (case py_item m ''external_port'' of
        Inl e \<Rightarrow> (Some e, s)
      | Inr port \<Rightarrow>
          (case py_item m ''target_server'' of
             Inl e \<Rightarrow> (Some e, s)
           | Inr server \<Rightarrow>
               (case py_item m ''target_port'' of
                  Inl e \<Rightarrow> (Some e, s)
                | Inr tport \<Rightarrow>
                    (case start_forwarding env port server tport s of
                       (Inl e, s') \<Rightarrow> (Some e, s')
                     | (Inr started, s') \<Rightarrow> start_each env ms s'))))"

definition start_all_forwards :: "os_env \<Rightarrow> file_state \<Rightarrow> forwarder \<Rightarrow> py_error option \<times> forwarder" where
  "start_all_forwards env f s =
     (case start_each env (PortForwarder_load_mappings f) s of
        (Some e, s') \<Rightarrow> (Some e, s')
      | (None, s') \<Rightarrow> (None, s'\<lparr>is_running := True\<rparr>))"

text \<open>\<^verbatim>\<open>stop_all_forwards\<close> walks a copy of the keys.\<close>

fun stop_each :: "json list \<Rightarrow> forwarder \<Rightarrow> py_error option \<times> forwarder" where
  "stop_each [] s = (None, s)"
| "stop_each (port # ports) s =
     (case stop_forwarding port s of
        (Inl e, s') \<Rightarrow> (Some e, s')
      | (Inr stopped, s') \<Rightarrow> stop_each ports s')"

definition stop_all_forwards :: "forwarder \<Rightarrow> py_error option \<times> forwarder" where
  "stop_all_forwards s =
     (case stop_each (dict_keys (active_forwards s)) s of
        (Some e, s') \<Rightarrow> (Some e, s')
      | (None, s') \<Rightarrow> (None, s'\<lparr>is_running := False\<rparr>))"

text \<open>
  \<^verbatim>\<open>reload_mappings\<close>: stop everything, then start from the file. Its return value,
  \<^verbatim>\<open>get_status()\<close>, reads the state returned here and changes nothing.
\<close>

definition reload_mappings :: "os_env \<Rightarrow> file_state \<Rightarrow> forwarder \<Rightarrow> py_error option \<times> forwarder" where
  "reload_mappings env f s =
     (case stop_all_forwards s of
        (Some e, s') \<Rightarrow> (Some e, s')
      | (None, s') \<Rightarrow> start_all_forwards env f s')"

text \<open>The states a caller can bring a fresh \<^verbatim>\<open>PortForwarder\<close> into.\<close>

inductive reachable :: "forwarder \<Rightarrow> bool" where
  fresh: "reachable PortForwarder_init"
| after_start: "reachable s \<Longrightarrow> reachable (snd (start_forwarding env port host tport s))"
| after_stop: "reachable s \<Longrightarrow> reachable (snd (stop_forwarding port s))"
| after_start_all: "reachable s \<Longrightarrow> reachable (snd (start_all_forwards env f s))"
| after_stop_all: "reachable s \<Longrightarrow> reachable (snd (stop_all_forwards s))"
| after_reload: "reachable s \<Longrightarrow> reachable (snd (reload_mappings env f s))"

text \<open>The external ports of the mappings a load returned.\<close>

fun mapping_ports :: "json list \<Rightarrow> json list" where
  "mapping_ports [] = []"
| "mapping_ports (m # ms) =
     (case py_item m ''external_port'' of
        Inl e \<Rightarrow> mapping_ports ms
      | Inr p \<Rightarrow> p # mapping_ports ms)"

definition snapshot_ports :: "file_state \<Rightarrow> json set" where
  "snapshot_ports f = key_norm ` set (mapping_ports (PortForwarder_load_mappings f))"

text \<open>A listener that is no longer accepting: flag down and no open socket.\<close>

definition stopped :: "forward_thread \<Rightarrow> bool" where
  "stopped t = (\<not> is_active t \<and> server_socket t \<noteq> SockOpen)"

text \<open>
  A port's listener is untouched between two states when the port still holds the same
  thread object and that object is as it was.
\<close>

definition untouched :: "forwarder \<Rightarrow> forwarder \<Rightarrow> json \<Rightarrow> bool" where
  "untouched s s' port =
     (case dict_find (active_forwards s) port of
        None \<Rightarrow> dict_find (active_forwards s') port = None
      | Some a \<Rightarrow> dict_find (active_forwards s') port = Some a
                 \<and> a < length (threads s) \<and> a < length (threads s')
                 \<and> threads s' ! a = threads s ! a)"

text \<open>Addresses in the dict point into the store, and keys are hashable.\<close>

definition well_formed :: "forwarder \<Rightarrow> bool" where
  "well_formed s =
     (list_all (\<lambda>ka. hashable (fst ka) \<and> snd ka < length (threads s)) (active_forwards s)
      \<and> one_per_port (active_forwards s))"

text \<open>Example inputs: one mapping \<open>9000 \<rightarrow> 127.0.0.1:9100\<close> without an activity flag.\<close>

definition mapping_9000 :: json where
  "mapping_9000 =
     JObj [(''external_port'', JNum 9000), (''target_server'', JStr ''127.0.0.1''),
           (''target_port'', JNum 9100)]"

definition mapping_9001 :: json where
  "mapping_9001 =
     JObj [(''external_port'', JNum 9001), (''target_server'', JStr ''127.0.0.1''),
           (''target_port'', JNum 9101), (''is_active'', JBool True)]"

definition mapping_9002 :: json where
  "mapping_9002 =
     JObj [(''external_port'', JNum 9002), (''target_server'', JStr ''127.0.0.1''),
           (''target_port'', JNum 9102), (''is_active'', JBool True)]"

definition free_ports :: os_env where
  "free_ports = \<lparr>thread_starts = (\<lambda>p. True), bind_listen = (\<lambda>p. Bound)\<rparr>"

definition port_in_use :: os_env where
  "port_in_use = \<lparr>thread_starts = (\<lambda>p. True), bind_listen = (\<lambda>p. BindFails)\<rparr>"

definition file_9000 :: file_state where
  "file_9000 = Content (JArr [mapping_9000])"

definition file_9001 :: file_state where
  "file_9001 = Content (JArr [mapping_9001])"

definition file_9002 :: file_state where
  "file_9002 = Content (JArr [mapping_9002])"

definition listening_9000 :: forwarder where
  "listening_9000 = snd (start_all_forwards free_ports file_9000 PortForwarder_init)"

definition listening_9001 :: forwarder where
  "listening_9001 = snd (start_all_forwards free_ports file_9001 PortForwarder_init)"

section \<open>ConnectionHandler: one relayed connection\<close>

type_synonym bytes = "8 word list"

datatype sock = Client | Target

text \<open>
  What the sockets answer in one turn of the copy loop. \<^verbatim>\<open>select\<close> times out after 1 s
  with nothing to read, reports the source readable, or raises (the socket was closed under
  it). \<^verbatim>\<open>recv\<close> returns bytes (none at end of stream) or raises. \<^verbatim>\<open>send\<close> returns how
  many bytes of its argument the socket took, or raises; the loop does not read that number.
\<close>

datatype send_outcome = Sent nat | SendRaises

datatype recv_outcome = Received bytes send_outcome | RecvRaises

datatype poll = NotReady | Ready recv_outcome | SelectRaises

text \<open>
  The socket calls a piece of code makes. \<open>CallShutdownWr\<close> is
  \<^verbatim>\<open>shutdown(SHUT_WR)\<close>, the half-close; \<open>CallClose\<close> is \<^verbatim>\<open>close()\<close>.
\<close>

datatype sock_call =
    CallSelect sock
  | CallRecv sock
  | CallSend sock bytes
  | CallShutdownWr sock
  | CallClose sock

datatype loop_state = Polling | EndedEof | EndedError

text \<open>
  What one copy loop has done: its socket calls, the bytes it read from the source, the
  bytes the destination socket took, the seconds it spent in \<^verbatim>\<open>select\<close> calls that timed
  out, and whether it is still polling or how it ended.
\<close>

record relay =
  calls :: "sock_call list"
  bytes_read :: bytes
  bytes_written :: bytes
  waited :: nat
  state :: loop_state

definition ended :: "sock_call list \<Rightarrow> loop_state \<Rightarrow> relay" where
  "ended cs e = \<lparr>calls = cs, bytes_read = [], bytes_written = [], waited = 0, state = e\<rparr>"

definition turn :: "sock_call list \<Rightarrow> bytes \<Rightarrow> bytes \<Rightarrow> nat \<Rightarrow> relay \<Rightarrow> relay" where
  "turn cs r w t x =
     \<lparr>calls = cs @ calls x, bytes_read = r @ bytes_read x, bytes_written = w @ bytes_written x,
      waited = t + waited x, state = state x\<rparr>"

text \<open>
  The inner function \<^verbatim>\<open>forward(src, dst, direction)\<close> over the turns its sockets give it.
  A time-out of \<^verbatim>\<open>select\<close> goes round again; an empty \<^verbatim>\<open>recv\<close> breaks; any exception
  ends the loop in its \<^verbatim>\<open>except\<close>. When the turns run out the loop is still polling.
\<close>

fun forward :: "sock \<Rightarrow> sock \<Rightarrow> poll list \<Rightarrow> relay" where
  "forward src dst [] = ended [] Polling"
| "forward src dst (NotReady # ps) = turn [CallSelect src] [] [] 1 (forward src dst ps)"
| "forward src dst (SelectRaises # ps) = ended [CallSelect src] EndedError"
| "forward src dst (Ready RecvRaises # ps) = ended [CallSelect src, CallRecv src] EndedError"
| "forward src dst (Ready (Received d out) # ps) =
     (if d = [] then ended [CallSelect src, CallRecv src] EndedEof
      else case out of
             SendRaises \<Rightarrow>
               turn [CallSelect src, CallRecv src, CallSend dst d] d [] 0 (ended [] EndedError)
           | Sent k \<Rightarrow>
               turn [CallSelect src, CallRecv src, CallSend dst d] d (take k d) 0
                 (forward src dst ps))"

text \<open>When the thread running a loop ends, in seconds from its start, if it does.\<close>

definition ends_at :: "relay \<Rightarrow> nat option" where
  "ends_at x = (if state x = Polling then None else Some (waited x))"

text \<open>
  \<^verbatim>\<open>Thread.join(timeout)\<close> called at \<open>now\<close>: it returns when the thread has ended or
  the time-out has passed, whichever is first.
\<close>

definition join :: "nat \<Rightarrow> nat \<Rightarrow> nat option \<Rightarrow> nat" where
  "join now tmo e =
     (case e of
        None \<Rightarrow> now + tmo
      | Some t \<Rightarrow> if t \<le> now then now else min t (now + tmo))"

text \<open>What a session meets: which calls return, and the turns of each direction.\<close>

record session_env =
  socket_created :: bool
  connected :: bool
  nodelay_set :: bool
  t1_started :: bool
  t2_started :: bool
  client_to_target :: "poll list"
  target_to_client :: "poll list"

record relayed =
  upward :: "relay option"
  downward :: "relay option"
  returned_at :: nat

text \<open>
  \<^verbatim>\<open>forward_data_optimized\<close>: start a thread per direction, then join the first for at
  most \<open>timeout\<close> seconds and the second for at most \<open>timeout\<close> seconds more.
  \<^verbatim>\<open>Thread.start\<close> can raise; when it does for the second thread, the first is already
  running. The result is the exception raised, if any, and what the loops did.
\<close>

definition forward_data_optimized :: "nat \<Rightarrow> session_env \<Rightarrow> py_error option \<times> relayed" where
  "forward_data_optimized tmo env =
     (if \<not> t1_started env
      then (Some RuntimeError, \<lparr>upward = None, downward = None, returned_at = 0\<rparr>)
      else
        let t1 = forward Client Target (client_to_target env) in
        if \<not> t2_started env
        then (Some RuntimeError, \<lparr>upward = Some t1, downward = None, returned_at = 0\<rparr>)
        else
          let t2 = forward Target Client (target_to_client env);
              j1 = join 0 tmo (ends_at t1);
              j2 = join j1 tmo (ends_at t2)
          in (None, \<lparr>upward = Some t1, downward = Some t2, returned_at = j2\<rparr>))"

text \<open>
  The \<^verbatim>\<open>try\<close> block of \<^verbatim>\<open>ConnectionHandler.run\<close>: the local \<^verbatim>\<open>target_socket\<close> (set or
  still \<^verbatim>\<open>None\<close>), the exception the block raised, if any, and the relay, when it was
  reached.
\<close>

definition run_try :: "nat \<Rightarrow> session_env \<Rightarrow> bool \<times> py_error option \<times> relayed option" where
  "run_try tmo env =
     (if \<not> socket_created env then (False, Some OSError, None)
      else if \<not> connected env then (True, Some OSError, None)
      else if \<not> nodelay_set env then (True, Some OSError, None)
      else case forward_data_optimized tmo env of (e, r) \<Rightarrow> (True, e, Some r))"

text \<open>
  The clause \<^verbatim>\<open>except Exception as e\<close> of \<^verbatim>\<open>run\<close>: what it catches (and logs) and what
  goes on past it, for what the \<^verbatim>\<open>try\<close> block raised.
\<close>

definition except_Exception :: "py_error option \<Rightarrow> py_error option \<times> py_error option" where
  "except_Exception raised =
     (case raised of
        None \<Rightarrow> (None, None)
      | Some e \<Rightarrow> if is_Exception e then (Some e, None) else (None, Some e))"

text \<open>
  \<^verbatim>\<open>run\<close>: the \<^verbatim>\<open>try\<close> block, the \<^verbatim>\<open>except\<close> clause, and \<^verbatim>\<open>finally\<close>, which closes
  the target socket, when the local variable holds one, and then the client socket.
  \<^verbatim>\<open>close()\<close> is taken to return. \<open>escaped\<close> is the exception that leaves \<^verbatim>\<open>run\<close>.
\<close>

record session_end =
  escaped :: "py_error option"
  caught :: "py_error option"
  target_socket :: bool
  final_calls :: "sock_call list"
  relay_result :: "relayed option"

definition ConnectionHandler_run :: "nat \<Rightarrow> session_env \<Rightarrow> session_end" where
  "ConnectionHandler_run tmo env =
     (case run_try tmo env of
        (target, raised, relay) \<Rightarrow>
          \<lparr>escaped = snd (except_Exception raised),
           caught = fst (except_Exception raised),
           target_socket = target,
           final_calls = (if target then [CallClose Target] else []) @ [CallClose Client],
           relay_result = relay\<rparr>)"

text \<open>All socket calls of a session: both copy loops, then \<^verbatim>\<open>finally\<close>.\<close>

definition loop_calls :: "relay option \<Rightarrow> sock_call list" where
  "loop_calls r = (case r of None \<Rightarrow> [] | Some x \<Rightarrow> calls x)"

definition session_calls :: "session_end \<Rightarrow> sock_call list" where
  "session_calls e =
     (case relay_result e of
        None \<Rightarrow> final_calls e
      | Some r \<Rightarrow> loop_calls (upward r) @ loop_calls (downward r) @ final_calls e)"

text \<open>Every \<^verbatim>\<open>send\<close> of the turns took all it was given.\<close>

fun sends_complete :: "poll list \<Rightarrow> bool" where
  "sends_complete [] = True"
| "sends_complete (Ready (Received d (Sent k)) # ps) = (length d \<le> k \<and> sends_complete ps)"
| "sends_complete (p # ps) = sends_complete ps"

text \<open>Example sessions.\<close>

definition all_calls_return :: "poll list \<Rightarrow> poll list \<Rightarrow> session_env" where
  "all_calls_return up down =
     \<lparr>socket_created = True, connected = True, nodelay_set = True, t1_started = True,
      t2_started = True, client_to_target = up, target_to_client = down\<rparr>"

definition short_send :: "poll list" where
  "short_send = [Ready (Received [1, 2, 3, 4] (Sent 2)), Ready (Received [] (Sent 0))]"

definition client_eof :: "poll list" where
  "client_eof = [Ready (Received [] (Sent 0))]"

definition idle :: "poll list" where
  "idle = replicate 60 NotReady"

section \<open>The HTTP reverse proxy\<close>

text \<open>
  An inbound request of the web framework (aiohttp), received in full: its path, method
  and headers, and \<open>req_body\<close>, what \<^verbatim>\<open>request.read()\<close> returned (\<^verbatim>\<open>None\<close> when the
  request has no body).
\<close>

record request =
  req_path :: string
  req_method :: string
  req_headers :: "(string \<times> string) list"
  req_body :: "bytes option"

text \<open>The request sent upstream, and what comes back: a response, or the text of the
  exception the client session raised (connect error, time-out, any transport failure).\<close>

record upstream_request =
  up_method :: string
  up_url :: string
  up_headers :: "(string \<times> string) list"
  up_body :: "bytes option"
  total_timeout :: nat

record upstream_response =
  up_status :: nat
  up_response_headers :: "(string \<times> string) list"
  up_content :: bytes

text \<open>
  The body of a response of the proxy: one of its two messages (Korean text in the source:
  "no port mapping found", and "proxy error: " followed by the exception's text), or the
  upstream's bytes.
\<close>

datatype response_body =
    NoMappingFound
  | ProxyError string
  | Relayed bytes

record response =
  status :: nat
  response_headers :: "(string \<times> string) list"
  content :: response_body

text \<open>
  The attribute read \<^verbatim>\<open>request.port\<close>. The framework's request class has no attribute
  of that name (the port is in \<^verbatim>\<open>request.url\<close> and \<^verbatim>\<open>request.host\<close>): the read raises
  \<^verbatim>\<open>AttributeError\<close>, for every request.
\<close>

definition request_port :: "request \<Rightarrow> py_error + json" where
  "request_port req = Inl AttributeError"

text \<open>
  The loop that picks the target URL. Each turn evaluates \<^verbatim>\<open>request.port == port\<close>, the
  attribute first; the first route whose port is equal gives its URL with the path
  appended. With no route in the table the body never runs and the result is \<^verbatim>\<open>None\<close>.
  The loop stands above the \<^verbatim>\<open>try\<close> of the handler.
\<close>

fun resolve :: "string pydict \<Rightarrow> request \<Rightarrow> py_error + string option" where
  "resolve [] req = Inr None"
| "resolve ((k, url) # rs) req =
     (case request_port req of
        Inl e \<Rightarrow> Inl e
      | Inr p \<Rightarrow> if py_eq p k then Inr (Some (url @ req_path req)) else resolve rs req)"

text \<open>
  A response built with \<^verbatim>\<open>text=\<close> gets the framework's content type for text.
\<close>

definition text_headers :: "(string \<times> string) list" where
  "text_headers = [(''Content-Type'', ''text/plain; charset=utf-8'')]"

text \<open>
  \<^verbatim>\<open>proxy_handler\<close>: the response it returns, or the exception that leaves it (the
  framework then answers with its own internal-error response). The \<^verbatim>\<open>Host\<close> header is
  popped from the copied headers. \<^verbatim>\<open>if not target_url\<close> holds for \<^verbatim>\<open>None\<close> and for the
  empty string. The upstream request runs inside \<^verbatim>\<open>try\<close>: every exception there becomes
  the 500 response.
\<close>

definition proxy_handler ::
  "string pydict \<Rightarrow> (upstream_request \<Rightarrow> string + upstream_response) \<Rightarrow> request
     \<Rightarrow> py_error + response" where
  "proxy_handler routes upstream req =
     (let hdrs = filter (\<lambda>kv. fst kv \<noteq> ''Host'') (req_headers req) in
      case resolve routes req of
        Inl e \<Rightarrow> Inl e
      | Inr None \<Rightarrow>
          Inr \<lparr>status = 404, response_headers = text_headers, content = NoMappingFound\<rparr>
      | Inr (Some url) \<Rightarrow>
          if url = []
          then Inr \<lparr>status = 404, response_headers = text_headers, content = NoMappingFound\<rparr>
          else
            (case upstream \<lparr>up_method = req_method req, up_url = url, up_headers = hdrs,
                             up_body = req_body req, total_timeout = 30\<rparr> of
               Inl msg \<Rightarrow>
                 Inr \<lparr>status = 500, response_headers = text_headers, content = ProxyError msg\<rparr>
             | Inr r \<Rightarrow>
                 Inr \<lparr>status = up_status r, response_headers = up_response_headers r,
                      content = Relayed (up_content r)\<rparr>))"

text \<open>
  A Python value is awaitable or not. \<^verbatim>\<open>await v\<close> gives the result of an awaitable and
  raises \<^verbatim>\<open>TypeError\<close> on any other value, \<^verbatim>\<open>None\<close> among them.
\<close>

datatype 'a py_value = PyNone | Awaitable 'a

fun py_await :: "'a py_value \<Rightarrow> py_error + 'a" where
  "py_await PyNone = Inl TypeError"
| "py_await (Awaitable v) = Inr v"

record proxy_server =
  server_routes :: "string pydict"
  server_running :: bool

text \<open>
  \<^verbatim>\<open>load_mappings\<close> as a method: a plain \<^verbatim>\<open>def\<close> without \<^verbatim>\<open>return\<close>. It changes
  \<^verbatim>\<open>self.routes\<close> and its value is \<^verbatim>\<open>None\<close>.
\<close>

definition load_mappings_call ::
  "(json \<Rightarrow> string) \<Rightarrow> file_state \<Rightarrow> proxy_server \<Rightarrow> unit py_value \<times> proxy_server" where
  "load_mappings_call repr f srv =
     (PyNone, srv\<lparr>server_routes := ProxyServer_load_mappings repr f (server_routes srv)\<rparr>)"

record reload_response =
  reload_status :: string
  active_mappings :: nat
  timestamp :: string

text \<open>
  The handler of \<^verbatim>\<open>POST /reload\<close>: \<^verbatim>\<open>await self.load_mappings()\<close> calls the method and
  awaits its value; the JSON response is built after that. \<open>now\<close> is
  \<^verbatim>\<open>datetime.now().isoformat()\<close>.
\<close>

definition ProxyServer_reload_mappings ::
  "(json \<Rightarrow> string) \<Rightarrow> file_state \<Rightarrow> string \<Rightarrow> proxy_server
     \<Rightarrow> (py_error + reload_response) \<times> proxy_server" where
  "ProxyServer_reload_mappings repr f now srv =
     (case load_mappings_call repr f srv of
        (v, srv') \<Rightarrow>
          (case py_await v of
             Inl e \<Rightarrow> (Inl e, srv')
           | Inr u \<Rightarrow>
               (Inr \<lparr>reload_status = ''reloaded'', active_mappings = length (server_routes srv'),
                     timestamp = now\<rparr>, srv')))"

text \<open>Example inputs of the proxy.\<close>

definition get_index :: request where
  "get_index = \<lparr>req_path = ''/index'', req_method = ''GET'',
                 req_headers = [(''Host'', ''proxy.local''), (''Accept'', ''*/*'')], req_body = None\<rparr>"

definition routes_9000 :: "string pydict" where
  "routes_9000 = [(JNum 9000, ''http://127.0.0.1:9100'')]"

definition refused :: "upstream_request \<Rightarrow> string + upstream_response" where
  "refused r = Inl ''Connection refused''"

definition fresh_server :: proxy_server where
  "fresh_server = \<lparr>server_routes = [], server_running = False\<rparr>"



section \<open>Properties of the dict model\<close>

lemma py_eq_refl: "py_eq k k"
  by (simp add: py_eq_def)

lemma dict_find_store:
  "dict_find (dict_store d k v) q = (if py_eq k q then Some v else dict_find d q)"
  by (induction d) (auto simp: py_eq_def)

lemma dict_find_None_iff:
  "dict_find d k = None \<longleftrightarrow> key_norm k \<notin> set (map key_norm (dict_keys d))"
proof (induction d)
  case Nil
  show ?case by (simp add: dict_keys_def)
next
  case (Cons kv d)
  obtain k' v' where kv: "kv = (k', v')" by (cases kv)
  show ?case
  proof (cases "py_eq k' k")
    case True
    then show ?thesis using kv by (simp add: dict_keys_def py_eq_def)
  next
    case False
    then have "key_norm k \<noteq> key_norm k'" by (auto simp: py_eq_def)
    with Cons False show ?thesis using kv by (simp add: dict_keys_def)
  qed
qed

lemma dict_store_fresh: "dict_find d k = None \<Longrightarrow> dict_store d k v = d @ [(k, v)]"
  by (induction d) (auto split: if_splits)

lemma norm_keys_store:
  "map key_norm (dict_keys (dict_store d k v)) =
     (if key_norm k \<in> set (map key_norm (dict_keys d)) then map key_norm (dict_keys d)
      else map key_norm (dict_keys d) @ [key_norm k])"
proof (induction d)
  case Nil
  show ?case by (simp add: dict_keys_def)
next
  case (Cons kv d)
  obtain k' v' where kv: "kv = (k', v')" by (cases kv)
  show ?case
  proof (cases "py_eq k' k")
    case True
    then show ?thesis using kv by (simp add: dict_keys_def py_eq_def)
  next
    case False
    then have ne: "key_norm k \<noteq> key_norm k'" by (auto simp: py_eq_def)
    have "map key_norm (dict_keys (dict_store (kv # d) k v)) =
            key_norm k' # map key_norm (dict_keys (dict_store d k v))"
      using kv False by (simp add: dict_keys_def)
    with Cons ne kv show ?thesis by (simp add: dict_keys_def)
  qed
qed

lemma norm_keys_del:
  "map key_norm (dict_keys (dict_del d k)) = remove1 (key_norm k) (map key_norm (dict_keys d))"
proof (induction d)
  case Nil
  show ?case by (simp add: dict_keys_def)
next
  case (Cons kv d)
  obtain k' v' where kv: "kv = (k', v')" by (cases kv)
  show ?case
  proof (cases "py_eq k' k")
    case True
    then show ?thesis using kv by (simp add: dict_keys_def py_eq_def)
  next
    case False
    then have ne: "key_norm k \<noteq> key_norm k'" by (auto simp: py_eq_def)
    with Cons False kv show ?thesis by (simp add: dict_keys_def)
  qed
qed

lemma port_set_store: "port_set (dict_store d k v) = insert (key_norm k) (port_set d)"
  unfolding port_set_def using norm_keys_store[of d k v]
  by (metis (no_types, lifting) insert_absorb list.set_map list.simps(15) set_append
      Un_insert_right sup_bot.right_neutral empty_set)

lemma one_per_port_store: "one_per_port d \<Longrightarrow> one_per_port (dict_store d k v)"
  by (simp add: one_per_port_def norm_keys_store)

lemma one_per_port_del: "one_per_port d \<Longrightarrow> one_per_port (dict_del d k)"
  by (simp add: one_per_port_def norm_keys_del)

lemma port_set_del: "one_per_port d \<Longrightarrow> port_set (dict_del d k) = port_set d - {key_norm k}"
proof -
  assume "one_per_port d"
  then have "distinct (map key_norm (dict_keys d))" by (simp add: one_per_port_def)
  then have "set (remove1 (key_norm k) (map key_norm (dict_keys d)))
               = set (map key_norm (dict_keys d)) - {key_norm k}"
    by (rule set_remove1_eq)
  then show ?thesis
    unfolding port_set_def using norm_keys_del[of d k]
    by (metis list.set_map)
qed

lemma set_dict_del: "set (dict_del d k) \<subseteq> set d"
  by (induction d) (auto split: if_splits)

section \<open>Properties of the two loads\<close>

lemma mapping_record_get:
  "mapping_record m \<Longrightarrow> \<exists>v. py_get m ''is_active'' (JBool True) = Inr v"
  by (cases m) simp_all

lemma active_only_records:
  "\<forall>x\<in>set ms. mapping_record x \<Longrightarrow> active_only ms = Inr (filter is_active_flag ms)"
proof (induction ms)
  case Nil
  then show ?case by simp
next
  case (Cons m ms)
  then obtain v where v: "py_get m ''is_active'' (JBool True) = Inr v"
    using mapping_record_get by auto
  with Cons show ?case by (simp add: is_active_flag_def)
qed

lemma no_field_active: "mapping_record m \<Longrightarrow> \<not> has_field m ''is_active'' \<Longrightarrow> is_active_flag m"
  by (cases m) (simp_all add: is_active_flag_def)

lemma route_step_record:
  assumes "mapping_record m"
  shows "\<exists>p s t. py_item m ''external_port'' = Inr p \<and> py_item m ''target_server'' = Inr s
           \<and> py_item m ''target_port'' = Inr t \<and> hashable p
           \<and> route_step repr m rs =
               Inr (if is_active_flag m then dict_store rs p (target_url repr s t) else rs)"
  using assms
  by (cases m) (auto simp: route_step_def is_active_flag_def split: option.splits)

lemma route_loop_keeps:
  "\<forall>x\<in>set ms. mapping_record x \<Longrightarrow> dict_find rs p \<noteq> None
     \<Longrightarrow> dict_find (route_loop repr ms rs) p \<noteq> None"
proof (induction ms arbitrary: rs)
  case Nil
  then show ?case by simp
next
  case (Cons m ms)
  from Cons.prems obtain q s t where
    st: "route_step repr m rs =
           Inr (if is_active_flag m then dict_store rs q (target_url repr s t) else rs)"
    using route_step_record[of m repr rs] by auto
  show ?case
  proof (cases "is_active_flag m")
    case True
    have "dict_find (dict_store rs q (target_url repr s t)) p \<noteq> None"
      using Cons.prems(2) by (simp add: dict_find_store)
    with Cons.IH[of "dict_store rs q (target_url repr s t)"] Cons.prems(1) st True
    show ?thesis by simp
  next
    case False
    with Cons.IH[of rs] Cons.prems st show ?thesis by simp
  qed
qed

lemma route_loop_adds:
  assumes "\<forall>x\<in>set ms. mapping_record x" "m \<in> set ms" "is_active_flag m"
    "py_item m ''external_port'' = Inr p"
  shows "dict_find (route_loop repr ms rs) p \<noteq> None"
  using assms
proof (induction ms arbitrary: rs)
  case Nil
  then show ?case by simp
next
  case (Cons x ms)
  from Cons.prems obtain q s t where
    q: "py_item x ''external_port'' = Inr q" and
    st: "route_step repr x rs =
           Inr (if is_active_flag x then dict_store rs q (target_url repr s t) else rs)"
    using route_step_record[of x repr rs] by auto
  show ?case
  proof (cases "x = m")
    case True
    with q Cons.prems have qp: "q = p" by simp
    have "dict_find (dict_store rs p (target_url repr s t)) p \<noteq> None"
      by (simp add: dict_find_store py_eq_refl)
    then have "dict_find (route_loop repr ms (dict_store rs p (target_url repr s t))) p \<noteq> None"
      using route_loop_keeps Cons.prems(1) by simp
    with st True qp Cons.prems(3) show ?thesis by simp
  next
    case False
    with Cons.prems have "m \<in> set ms" by simp
    with Cons.IH Cons.prems have
      "\<And>r. dict_find (route_loop repr ms r) p \<noteq> None" by simp
    with st show ?thesis by simp
  qed
qed

text \<open>
  Claim C10. In a file of complete mapping records, a record without an \<open>is_active\<close>
  field is in the list the forwarder loads, and the proxy's table has a route for its port.
\<close>

theorem absent_is_active_means_active:
  assumes "\<forall>x\<in>set ms. mapping_record x" and "m \<in> set ms" and "\<not> has_field m ''is_active''"
  shows "m \<in> set (PortForwarder_load_mappings (Content (JArr ms)))
       \<and> (\<exists>p url. py_item m ''external_port'' = Inr p
             \<and> dict_find (ProxyServer_load_mappings repr (Content (JArr ms)) rs) p = Some url)"
proof -
  from assms have act: "is_active_flag m" using no_field_active by blast
  have "PortForwarder_load_mappings (Content (JArr ms)) = filter is_active_flag ms"
    using assms(1) by (simp add: PortForwarder_load_mappings_def active_only_records)
  with act assms(2) have a: "m \<in> set (PortForwarder_load_mappings (Content (JArr ms)))" by simp
  from assms obtain p where p: "py_item m ''external_port'' = Inr p"
    using route_step_record[of m repr rs] by blast
  have "dict_find (route_loop repr ms []) p \<noteq> None"
    using route_loop_adds[OF assms(1) assms(2) act p] .
  then have "\<exists>url. dict_find (ProxyServer_load_mappings repr (Content (JArr ms)) rs) p = Some url"
    by (simp add: ProxyServer_load_mappings_def)
  with a p show ?thesis by blast
qed

lemma show_nat_9100: "show_nat 9100 = ''9100''"
  by (simp add: show_nat.simps digit_char_def)

lemma proxy_load_9000:
  "ProxyServer_load_mappings repr file_9000 rs = [(JNum 9000, ''http://127.0.0.1:9100'')]"
  by (simp add: ProxyServer_load_mappings_def file_9000_def mapping_9000_def route_step_def
      target_url_def show_int_def show_nat_9100)

text \<open>
  The theorem at a file with the one mapping for port 9000, which has no \<open>is_active\<close>.
\<close>

theorem absent_is_active_means_active_witness:
  "mapping_record mapping_9000
   \<and> \<not> has_field mapping_9000 ''is_active''
   \<and> PortForwarder_load_mappings file_9000 = [mapping_9000]
   \<and> dict_find (ProxyServer_load_mappings (\<lambda>v. []) file_9000 []) (JNum 9000)
       = Some ''http://127.0.0.1:9100''"
  using absent_is_active_means_active[of "[mapping_9000]" mapping_9000 "\<lambda>v. []" "[]"]
  by (simp add: proxy_load_9000 py_eq_def)
     (simp add: PortForwarder_load_mappings_def file_9000_def mapping_9000_def)

section \<open>Properties of the port forwarder\<close>

lemma length_thread_update [simp]: "length (thread_update a f ts) = length ts"
  by (simp add: thread_update_def)

lemma well_formed_running [simp]: "well_formed (s\<lparr>is_running := b\<rparr>) = well_formed s"
  by (simp add: well_formed_def)

lemma well_formed_start:
  assumes "well_formed s"
  shows "well_formed (snd (start_forwarding env port host tport s))"
proof (cases "hashable port \<and> dict_find (active_forwards s) port = None \<and> thread_starts env port")
  case True
  then have st: "dict_store (active_forwards s) port (length (threads s))
                   = active_forwards s @ [(port, length (threads s))]"
    by (simp add: dict_store_fresh)
  have "list_all (\<lambda>ka. hashable (fst ka) \<and> snd ka < Suc (length (threads s))) (active_forwards s)"
    using assms by (auto simp: well_formed_def list_all_iff)
  moreover have "one_per_port (dict_store (active_forwards s) port (length (threads s)))"
    using assms by (simp add: well_formed_def one_per_port_store)
  ultimately show ?thesis
    using True st by (simp add: start_forwarding_def well_formed_def)
next
  case False
  then show ?thesis using assms by (auto simp: start_forwarding_def)
qed

lemma well_formed_stop:
  assumes "well_formed s"
  shows "well_formed (snd (stop_forwarding port s))"
proof -
  have "list_all (\<lambda>ka. hashable (fst ka) \<and> snd ka < length (threads s))
          (dict_del (active_forwards s) port)"
    using assms set_dict_del[of "active_forwards s" port]
    by (auto simp: well_formed_def list_all_iff)
  moreover have "one_per_port (dict_del (active_forwards s) port)"
    using assms by (simp add: well_formed_def one_per_port_del)
  ultimately show ?thesis
    using assms by (auto simp: stop_forwarding_def well_formed_def split: option.splits)
qed

lemma well_formed_start_each:
  "well_formed s \<Longrightarrow> well_formed (snd (start_each env ms s))"
proof (induction ms arbitrary: s)
  case Nil
  then show ?case by simp
next
  case (Cons m ms)
  show ?case
  proof (cases "py_item m ''external_port''")
    case (Inl e)
    then show ?thesis using Cons.prems by simp
  next
    case p: (Inr port)
    show ?thesis
    proof (cases "py_item m ''target_server''")
      case (Inl e)
      then show ?thesis using Cons.prems p by simp
    next
      case h: (Inr server)
      show ?thesis
      proof (cases "py_item m ''target_port''")
        case (Inl e)
        then show ?thesis using Cons.prems p h by simp
      next
        case t: (Inr tport)
        obtain r s' where r: "start_forwarding env port server tport s = (r, s')"
          by (cases "start_forwarding env port server tport s")
        then have wf: "well_formed s'"
          using well_formed_start[OF Cons.prems, of env port server tport] by simp
        show ?thesis
        proof (cases r)
          case (Inl e)
          then show ?thesis using p h t r wf by simp
        next
          case (Inr b)
          then show ?thesis using p h t r Cons.IH[OF wf] by simp
        qed
      qed
    qed
  qed
qed

lemma well_formed_stop_each:
  "well_formed s \<Longrightarrow> well_formed (snd (stop_each ports s))"
proof (induction ports arbitrary: s)
  case Nil
  then show ?case by simp
next
  case (Cons port ports)
  obtain r s' where r: "stop_forwarding port s = (r, s')"
    by (cases "stop_forwarding port s")
  then have wf: "well_formed s'" using well_formed_stop[OF Cons.prems, of port] by simp
  show ?case
  proof (cases r)
    case (Inl e)
    then show ?thesis using r wf by simp
  next
    case (Inr b)
    then show ?thesis using r Cons.IH[OF wf] by simp
  qed
qed

lemma well_formed_start_all:
  "well_formed s \<Longrightarrow> well_formed (snd (start_all_forwards env f s))"
  using well_formed_start_each[of s env "PortForwarder_load_mappings f"]
  by (auto simp: start_all_forwards_def split: prod.splits option.splits)

lemma well_formed_stop_all:
  "well_formed s \<Longrightarrow> well_formed (snd (stop_all_forwards s))"
  using well_formed_stop_each[of s "dict_keys (active_forwards s)"]
  by (auto simp: stop_all_forwards_def split: prod.splits option.splits)

lemma well_formed_reload:
  assumes "well_formed s"
  shows "well_formed (snd (reload_mappings env f s))"
proof -
  obtain e s1 where s1: "stop_all_forwards s = (e, s1)" by (cases "stop_all_forwards s")
  then have wf: "well_formed s1" using well_formed_stop_all[OF assms] by simp
  show ?thesis
  proof (cases e)
    case None
    then show ?thesis using s1 well_formed_start_all[OF wf, of env f]
      by (simp add: reload_mappings_def)
  next
    case (Some a)
    then show ?thesis using s1 wf by (simp add: reload_mappings_def)
  qed
qed

lemma reachable_well_formed: "reachable s \<Longrightarrow> well_formed s"
proof (induction rule: reachable.induct)
  case fresh
  show ?case by (simp add: well_formed_def PortForwarder_init_def one_per_port_def dict_keys_def)
next
  case (after_start s env port host tport)
  then show ?case by (simp add: well_formed_start)
next
  case (after_stop s port)
  then show ?case by (simp add: well_formed_stop)
next
  case (after_start_all s env f)
  then show ?case by (simp add: well_formed_start_all)
next
  case (after_stop_all s)
  then show ?case by (simp add: well_formed_stop_all)
next
  case (after_reload s env f)
  then show ?case by (simp add: well_formed_reload)
qed


lemma stopped_stop [simp]: "stopped (ForwardThread_stop t)"
  by (simp add: stopped_def ForwardThread_stop_def)

lemma stopped_thread_update:
  "i < length ts \<Longrightarrow> stopped (ts ! i) \<or> i = a
     \<Longrightarrow> stopped (thread_update a ForwardThread_stop ts ! i)"
  by (cases "i = a") (auto simp: thread_update_def)

lemma stop_each_keys:
  "active_forwards s = d \<Longrightarrow> list_all (\<lambda>ka. hashable (fst ka)) d \<Longrightarrow>
     \<exists>s'. stop_each (dict_keys d) s = (None, s') \<and> active_forwards s' = []
        \<and> is_running s' = is_running s \<and> length (threads s') = length (threads s)
        \<and> (\<forall>i < length (threads s).
              stopped (threads s ! i) \<or> i \<in> snd ` set d \<longrightarrow> stopped (threads s' ! i))"
proof (induction d arbitrary: s)
  case Nil
  then show ?case by (simp add: dict_keys_def)
next
  case (Cons ka d)
  obtain k a where ka: "ka = (k, a)" by (cases ka)
  define s1 where "s1 = s\<lparr>active_forwards := d,
                          threads := thread_update a ForwardThread_stop (threads s)\<rparr>"
  have hk: "hashable k" using Cons.prems(2) ka by simp
  have step: "stop_forwarding k s = (Inr True, s1)"
    using Cons.prems(1) ka hk by (simp add: stop_forwarding_def s1_def py_eq_refl)
  have "active_forwards s1 = d" by (simp add: s1_def)
  moreover have "list_all (\<lambda>ka. hashable (fst ka)) d" using Cons.prems(2) by simp
  ultimately obtain s' where
    s': "stop_each (dict_keys d) s1 = (None, s')" "active_forwards s' = []"
        "is_running s' = is_running s1" "length (threads s') = length (threads s1)"
    and st: "\<forall>i < length (threads s1).
              stopped (threads s1 ! i) \<or> i \<in> snd ` set d \<longrightarrow> stopped (threads s' ! i)"
    using Cons.IH[of s1] by blast
  have len: "length (threads s1) = length (threads s)" by (simp add: s1_def)
  have "\<forall>i < length (threads s).
          stopped (threads s ! i) \<or> i \<in> snd ` set (ka # d) \<longrightarrow> stopped (threads s' ! i)"
  proof (intro allI impI)
    fix i
    assume i: "i < length (threads s)"
      and h: "stopped (threads s ! i) \<or> i \<in> snd ` set (ka # d)"
    from h ka have "stopped (threads s ! i) \<or> i = a \<or> i \<in> snd ` set d" by auto
    then have "stopped (threads s1 ! i) \<or> i \<in> snd ` set d"
      using stopped_thread_update[OF i, of a] by (auto simp: s1_def)
    with st i len show "stopped (threads s' ! i)" by auto
  qed
  moreover have "stop_each (dict_keys (ka # d)) s = (None, s')"
    using step s'(1) ka by (simp add: dict_keys_def)
  ultimately show ?case using s' len by (auto simp: s1_def)
qed

lemma stop_all_effect:
  assumes "well_formed s"
  shows "\<exists>s'. stop_all_forwards s = (None, s') \<and> active_forwards s' = []
           \<and> is_running s' = False \<and> length (threads s') = length (threads s)
           \<and> (\<forall>ka \<in> set (active_forwards s). stopped (threads s' ! snd ka))"
proof -
  have h: "list_all (\<lambda>ka. hashable (fst ka)) (active_forwards s)"
    using assms by (auto simp: well_formed_def list_all_iff)
  obtain s1 where
    s1: "stop_each (dict_keys (active_forwards s)) s = (None, s1)" "active_forwards s1 = []"
        "length (threads s1) = length (threads s)"
    and st: "\<forall>i < length (threads s).
              stopped (threads s ! i) \<or> i \<in> snd ` set (active_forwards s)
                \<longrightarrow> stopped (threads s1 ! i)"
    using stop_each_keys[OF refl h] by blast
  have "\<forall>ka \<in> set (active_forwards s). stopped (threads s1 ! snd ka)"
  proof
    fix ka assume ka: "ka \<in> set (active_forwards s)"
    then have "snd ka < length (threads s)"
      using assms by (auto simp: well_formed_def list_all_iff)
    with st ka show "stopped (threads s1 ! snd ka)" by blast
  qed
  then show ?thesis using s1 by (simp add: stop_all_forwards_def)
qed

lemma start_forwarding_threads:
  "\<exists>new. threads (snd (start_forwarding env port host tport s)) = threads s @ new
     \<and> (\<forall>ka \<in> set (active_forwards (snd (start_forwarding env port host tport s))).
           ka \<in> set (active_forwards s) \<or> length (threads s) \<le> snd ka)"
  by (auto simp: start_forwarding_def dict_store_fresh)

lemma start_each_threads:
  "\<exists>new. threads (snd (start_each env ms s)) = threads s @ new
     \<and> (\<forall>ka \<in> set (active_forwards (snd (start_each env ms s))).
           ka \<in> set (active_forwards s) \<or> length (threads s) \<le> snd ka)"
proof (induction ms arbitrary: s)
  case Nil
  show ?case by simp
next
  case (Cons m ms)
  show ?case
  proof (cases "\<exists>port server tport. py_item m ''external_port'' = Inr port
           \<and> py_item m ''target_server'' = Inr server \<and> py_item m ''target_port'' = Inr tport")
    case False
    then show ?thesis by (auto split: sum.splits)
  next
    case True
    then obtain port server tport where
      f: "py_item m ''external_port'' = Inr port" "py_item m ''target_server'' = Inr server"
         "py_item m ''target_port'' = Inr tport" by blast
    obtain r s1 where r: "start_forwarding env port server tport s = (r, s1)"
      by (cases "start_forwarding env port server tport s")
    obtain new1 where
      n1: "threads s1 = threads s @ new1"
          "\<forall>ka \<in> set (active_forwards s1). ka \<in> set (active_forwards s) \<or> length (threads s) \<le> snd ka"
      using start_forwarding_threads[of env port server tport s] r by auto
    show ?thesis
    proof (cases r)
      case (Inl e)
      then show ?thesis using f r n1 by simp
    next
      case (Inr b)
      obtain new2 where
        n2: "threads (snd (start_each env ms s1)) = threads s1 @ new2"
            "\<forall>ka \<in> set (active_forwards (snd (start_each env ms s1))).
               ka \<in> set (active_forwards s1) \<or> length (threads s1) \<le> snd ka"
        using Cons.IH[of s1] by blast
      have eq: "start_each env (m # ms) s = start_each env ms s1" using f r Inr by simp
      have "\<forall>ka \<in> set (active_forwards (snd (start_each env ms s1))).
               ka \<in> set (active_forwards s) \<or> length (threads s) \<le> snd ka"
        using n1 n2 by fastforce
      then show ?thesis using eq n1 n2 by simp
    qed
  qed
qed

lemma port_set_start:
  assumes "hashable port" "thread_starts env port"
  shows "\<exists>b s'. start_forwarding env port host tport s = (Inr b, s')
           \<and> port_set (active_forwards s') = insert (key_norm port) (port_set (active_forwards s))"
proof (cases "dict_find (active_forwards s) port = None")
  case True
  then show ?thesis using assms by (auto simp: start_forwarding_def port_set_store)
next
  case False
  then have "key_norm port \<in> port_set (active_forwards s)"
    by (simp add: dict_find_None_iff port_set_def)
  then show ?thesis using assms False by (auto simp: start_forwarding_def)
qed

lemma mapping_record_items:
  "mapping_record m \<Longrightarrow> \<exists>p s t. py_item m ''external_port'' = Inr p
      \<and> py_item m ''target_server'' = Inr s \<and> py_item m ''target_port'' = Inr t \<and> hashable p"
  by (cases m) (auto split: option.splits)

lemma start_each_ports:
  "\<forall>m \<in> set ms. mapping_record m \<Longrightarrow> \<forall>p \<in> set (mapping_ports ms). thread_starts env p \<Longrightarrow>
     \<exists>s'. start_each env ms s = (None, s') \<and> is_running s' = is_running s
        \<and> port_set (active_forwards s') = port_set (active_forwards s) \<union> key_norm ` set (mapping_ports ms)"
proof (induction ms arbitrary: s)
  case Nil
  show ?case by simp
next
  case (Cons m ms)
  obtain port server tport where
    f: "py_item m ''external_port'' = Inr port" "py_item m ''target_server'' = Inr server"
       "py_item m ''target_port'' = Inr tport" "hashable port"
    using mapping_record_items[of m] Cons.prems(1) by auto
  have ts: "thread_starts env port" using Cons.prems(2) f by simp
  obtain b s1 where
    s1: "start_forwarding env port server tport s = (Inr b, s1)"
        "port_set (active_forwards s1) = insert (key_norm port) (port_set (active_forwards s))"
    using port_set_start[OF f(4) ts, of server tport s] by blast
  have run: "is_running s1 = is_running s"
    using s1(1) by (auto simp: start_forwarding_def split: if_splits)
  have "\<forall>m \<in> set ms. mapping_record m" using Cons.prems(1) by simp
  moreover have "\<forall>p \<in> set (mapping_ports ms). thread_starts env p"
    using Cons.prems(2) f by simp
  ultimately obtain s' where
    s': "start_each env ms s1 = (None, s')" "is_running s' = is_running s1"
        "port_set (active_forwards s') = port_set (active_forwards s1) \<union> key_norm ` set (mapping_ports ms)"
    using Cons.IH[of s1] by blast
  have "start_each env (m # ms) s = (None, s')" using f s1 s' by simp
  moreover have "port_set (active_forwards s') =
      port_set (active_forwards s) \<union> key_norm ` set (mapping_ports (m # ms))"
    using s1 s' f by auto
  ultimately show ?case using s' run by simp
qed




lemmas forwarder_eval =
  start_all_forwards_def stop_all_forwards_def reload_mappings_def start_forwarding_def
  stop_forwarding_def PortForwarder_load_mappings_def PortForwarder_init_def
  ForwardThread_run_def ForwardThread_init_def ForwardThread_stop_def thread_update_def
  free_ports_def port_in_use_def py_eq_def dict_keys_def
  mapping_9000_def mapping_9001_def mapping_9002_def file_9000_def file_9001_def file_9002_def

lemma load_9000: "PortForwarder_load_mappings file_9000 = [mapping_9000]"
  by (simp add: forwarder_eval)

lemma listening_9000_eq:
  "listening_9000 =
     \<lparr>active_forwards = [(JNum 9000, 0)], is_running = True,
      threads = [\<lparr>external_port = JNum 9000, target_host = JStr ''127.0.0.1'',
                  target_port = JNum 9100, is_active = True, connection_count = 0,
                  server_socket = SockOpen, buffer_size = 8192, timeout = 30\<rparr>]\<rparr>"
  by (simp add: listening_9000_def forwarder_eval)

lemma reload_listening_9000:
  "snd (reload_mappings free_ports file_9000 listening_9000) =
     \<lparr>active_forwards = [(JNum 9000, 1)], is_running = True,
      threads = [\<lparr>external_port = JNum 9000, target_host = JStr ''127.0.0.1'',
                  target_port = JNum 9100, is_active = False, connection_count = 0,
                  server_socket = SockClosed, buffer_size = 8192, timeout = 30\<rparr>,
                 \<lparr>external_port = JNum 9000, target_host = JStr ''127.0.0.1'',
                  target_port = JNum 9100, is_active = True, connection_count = 0,
                  server_socket = SockOpen, buffer_size = 8192, timeout = 30\<rparr>]\<rparr>"
  by (simp add: listening_9000_eq) (simp add: forwarder_eval)

lemma reachable_listening_9000: "reachable listening_9000"
  unfolding listening_9000_def by (rule reachable.after_start_all) (rule reachable.fresh)

text \<open>
  Claim C1, as the code has it. \<^verbatim>\<open>reload_mappings\<close> does not compare the old and the new
  mappings: it stops every listener and starts again from the file. After it, from any
  reachable state, every thread object that was registered before is stopped, and every
  thread object registered now was created by this call, whether or not the port's
  mapping changed.
\<close>

theorem reload_restarts_every_listener:
  assumes "reachable s"
  shows "(\<forall>ka \<in> set (active_forwards s). stopped (threads (snd (reload_mappings env f s)) ! snd ka))
       \<and> (\<forall>ka \<in> set (active_forwards (snd (reload_mappings env f s))). length (threads s) \<le> snd ka)"
proof -
  have wf: "well_formed s" using assms by (rule reachable_well_formed)
  obtain s1 where
    s1: "stop_all_forwards s = (None, s1)" "active_forwards s1 = []"
        "length (threads s1) = length (threads s)"
        "\<forall>ka \<in> set (active_forwards s). stopped (threads s1 ! snd ka)"
    using stop_all_effect[OF wf] by blast
  define s2 where "s2 = snd (reload_mappings env f s)"
  have "s2 = snd (start_all_forwards env f s1)"
    using s1(1) by (simp add: s2_def reload_mappings_def)
  then have fields: "threads s2 = threads (snd (start_each env (PortForwarder_load_mappings f) s1))"
      "active_forwards s2 = active_forwards (snd (start_each env (PortForwarder_load_mappings f) s1))"
    by (auto simp: start_all_forwards_def split: prod.splits option.splits)
  obtain new where
    new: "threads s2 = threads s1 @ new"
         "\<forall>ka \<in> set (active_forwards s2). ka \<in> set (active_forwards s1) \<or> length (threads s1) \<le> snd ka"
    using start_each_threads[of env "PortForwarder_load_mappings f" s1] fields by auto
  have a: "\<forall>ka \<in> set (active_forwards s). stopped (threads s2 ! snd ka)"
  proof
    fix ka assume ka: "ka \<in> set (active_forwards s)"
    then have "snd ka < length (threads s1)"
      using wf s1(3) by (auto simp: well_formed_def list_all_iff)
    then have "threads s2 ! snd ka = threads s1 ! snd ka" using new(1) by (simp add: nth_append)
    with s1(4) ka show "stopped (threads s2 ! snd ka)" by simp
  qed
  have b: "\<forall>ka \<in> set (active_forwards s2). length (threads s) \<le> snd ka"
    using new(2) s1(2) s1(3) by simp
  from a b show ?thesis by (simp add: s2_def)
qed

text \<open>
  The theorem at a forwarder listening on port 9000, reloaded with the same file: thread 0
  is stopped and port 9000 is now served by the new thread 1.
\<close>

theorem reload_restarts_every_listener_witness:
  "active_forwards listening_9000 = [(JNum 9000, 0)]
   \<and> is_active (threads listening_9000 ! 0)
   \<and> stopped (threads (snd (reload_mappings free_ports file_9000 listening_9000)) ! 0)
   \<and> active_forwards (snd (reload_mappings free_ports file_9000 listening_9000)) = [(JNum 9000, 1)]
   \<and> length (threads listening_9000) = 1"
  using reload_restarts_every_listener[OF reachable_listening_9000, of free_ports file_9000]
  by (simp add: reload_listening_9000) (simp add: listening_9000_eq stopped_def)

text \<open>
  Claim C1 as stated fails: the file still holds the one mapping for port 9000, and the
  reload does not leave that port's listener untouched.
\<close>

theorem reload_unchanged_mapping_counterexample:
  "PortForwarder_load_mappings file_9000 = [mapping_9000]
   \<and> dict_find (active_forwards listening_9000) (JNum 9000) = Some 0
   \<and> \<not> untouched listening_9000 (snd (reload_mappings free_ports file_9000 listening_9000)) (JNum 9000)"
  by (simp add: load_9000 reload_listening_9000 untouched_def) (simp add: listening_9000_eq py_eq_def)


text \<open>
  Claim C4, as the code has it. For a hashable port \<^verbatim>\<open>start_forwarding\<close> answers
  \<^verbatim>\<open>True\<close> exactly when the port is not yet forwarded and the thread could be started:
  the outcome of \<^verbatim>\<open>bind\<close> and \<^verbatim>\<open>listen\<close> is not part of the answer. The thread is
  registered either way; its \<open>is_active\<close> flag and its socket tell whether it listens.
\<close>

theorem start_forwarding_ignores_bind:
  assumes "hashable port"
  shows "fst (start_forwarding env port host tport s)
           = Inr (dict_find (active_forwards s) port = None \<and> thread_starts env port)
       \<and> (dict_find (active_forwards s) port = None \<and> thread_starts env port \<longrightarrow>
            (\<exists>t. snd (start_forwarding env port host tport s)
                    = s\<lparr>active_forwards := active_forwards s @ [(port, length (threads s))],
                        threads := threads s @ [t]\<rparr>
                 \<and> is_active t = (bind_listen env port = Bound)
                 \<and> (server_socket t = SockOpen) = (bind_listen env port = Bound)))"
proof -
  have "is_active (ForwardThread_run env (ForwardThread_init port host tport))
          = (bind_listen env port = Bound)"
    by (simp add: ForwardThread_run_def ForwardThread_init_def split: bind_result.splits)
  moreover have "(server_socket (ForwardThread_run env (ForwardThread_init port host tport)) = SockOpen)
          = (bind_listen env port = Bound)"
    by (simp add: ForwardThread_run_def ForwardThread_init_def split: bind_result.splits)
  ultimately show ?thesis
    using assms by (auto simp: start_forwarding_def dict_store_fresh)
qed

text \<open>
  The theorem on a fresh forwarder with port 9000 free, and on one that already forwards
  port 9000.
\<close>

theorem start_forwarding_ignores_bind_witness:
  "hashable (JNum 9000)
   \<and> fst (start_forwarding free_ports (JNum 9000) (JStr ''127.0.0.1'') (JNum 9100) PortForwarder_init) = Inr True
   \<and> is_active (threads (snd (start_forwarding free_ports (JNum 9000) (JStr ''127.0.0.1'') (JNum 9100) PortForwarder_init)) ! 0)
   \<and> fst (start_forwarding free_ports (JNum 9000) (JStr ''127.0.0.1'') (JNum 9100) listening_9000) = Inr False"
  using start_forwarding_ignores_bind[of "JNum 9000" free_ports "JStr ''127.0.0.1''" "JNum 9100" PortForwarder_init]
  by (simp add: listening_9000_eq) (simp add: forwarder_eval)

text \<open>
  Claim C4 as stated fails: with port 9000 in use, \<^verbatim>\<open>bind\<close> raises in the thread and
  \<^verbatim>\<open>start_forwarding\<close> still answers \<^verbatim>\<open>True\<close>, for a listener that is not active and
  whose socket is closed.
\<close>

theorem start_reports_success_on_failed_bind_counterexample:
  "bind_listen port_in_use (JNum 9000) = BindFails
   \<and> fst (start_forwarding port_in_use (JNum 9000) (JStr ''127.0.0.1'') (JNum 9100) PortForwarder_init) = Inr True
   \<and> \<not> is_active (threads (snd (start_forwarding port_in_use (JNum 9000) (JStr ''127.0.0.1'') (JNum 9100) PortForwarder_init)) ! 0)
   \<and> server_socket (threads (snd (start_forwarding port_in_use (JNum 9000) (JStr ''127.0.0.1'') (JNum 9100) PortForwarder_init)) ! 0) = SockClosed"
  by (simp add: forwarder_eval)

lemma snapshot_ports_9002: "snapshot_ports file_9002 = {JNum 9002}"
  by (simp add: snapshot_ports_def forwarder_eval)

lemma listening_9001_eq:
  "listening_9001 =
     \<lparr>active_forwards = [(JNum 9001, 0)], is_running = True,
      threads = [\<lparr>external_port = JNum 9001, target_host = JStr ''127.0.0.1'',
                  target_port = JNum 9101, is_active = True, connection_count = 0,
                  server_socket = SockOpen, buffer_size = 8192, timeout = 30\<rparr>]\<rparr>"
  by (simp add: listening_9001_def forwarder_eval)

lemma reachable_listening_9001: "reachable listening_9001"
  unfolding listening_9001_def by (rule reachable.after_start_all) (rule reachable.fresh)

lemma start_all_9002_ports:
  "port_set (active_forwards (snd (start_all_forwards free_ports file_9002 listening_9001)))
     = {JNum 9001, JNum 9002}"
  by (simp add: listening_9001_eq) (auto simp: forwarder_eval port_set_def)

text \<open>
  Claim C6, as the code has it. In every reachable state the dict holds one listener per
  port, and starting a port that is already forwarded answers \<^verbatim>\<open>False\<close> and changes
  nothing. When every loaded mapping is a complete record and every thread can be started,
  the live ports after \<^verbatim>\<open>reload_mappings\<close> are exactly the ports of the loaded mappings;
  after \<^verbatim>\<open>start_all_forwards\<close> they are those ports and the ports live before the call.
\<close>

theorem live_ports_follow_loaded_mappings:
  assumes "reachable s"
  shows "one_per_port (active_forwards s)
       \<and> (hashable port \<and> dict_find (active_forwards s) port \<noteq> None \<longrightarrow>
            start_forwarding env port host tport s = (Inr False, s))
       \<and> ((\<forall>m \<in> set (PortForwarder_load_mappings f). mapping_record m)
            \<and> (\<forall>p \<in> set (mapping_ports (PortForwarder_load_mappings f)). thread_starts env p) \<longrightarrow>
            port_set (active_forwards (snd (reload_mappings env f s))) = snapshot_ports f
          \<and> port_set (active_forwards (snd (start_all_forwards env f s)))
              = port_set (active_forwards s) \<union> snapshot_ports f)"
proof -
  have wf: "well_formed s" using assms by (rule reachable_well_formed)
  have a: "one_per_port (active_forwards s)" using wf by (simp add: well_formed_def)
  have b: "hashable port \<and> dict_find (active_forwards s) port \<noteq> None \<longrightarrow>
            start_forwarding env port host tport s = (Inr False, s)"
    by (simp add: start_forwarding_def)
  have c: "port_set (active_forwards (snd (reload_mappings env f s))) = snapshot_ports f
          \<and> port_set (active_forwards (snd (start_all_forwards env f s)))
              = port_set (active_forwards s) \<union> snapshot_ports f"
    if rec: "\<forall>m \<in> set (PortForwarder_load_mappings f). mapping_record m"
      and ts: "\<forall>p \<in> set (mapping_ports (PortForwarder_load_mappings f)). thread_starts env p"
  proof -
    have all: "port_set (active_forwards (snd (start_all_forwards env f s0)))
                 = port_set (active_forwards s0) \<union> snapshot_ports f" for s0
    proof -
      obtain s' where
        "start_each env (PortForwarder_load_mappings f) s0 = (None, s')"
        "port_set (active_forwards s') = port_set (active_forwards s0)
           \<union> key_norm ` set (mapping_ports (PortForwarder_load_mappings f))"
        using start_each_ports[OF rec ts, of s0] by blast
      then show ?thesis by (simp add: start_all_forwards_def snapshot_ports_def)
    qed
    obtain s1 where s1: "stop_all_forwards s = (None, s1)" "active_forwards s1 = []"
      using stop_all_effect[OF wf] by blast
    have "snd (reload_mappings env f s) = snd (start_all_forwards env f s1)"
      using s1(1) by (simp add: reload_mappings_def)
    then have "port_set (active_forwards (snd (reload_mappings env f s))) = snapshot_ports f"
      using all[of s1] s1(2) by (simp add: port_set_def dict_keys_def)
    with all[of s] show ?thesis by simp
  qed
  from a b c show ?thesis by blast
qed

text \<open>
  The theorem at a forwarder listening on port 9001 and a file that maps port 9002 only.
\<close>

theorem live_ports_follow_loaded_mappings_witness:
  "one_per_port (active_forwards listening_9001)
   \<and> dict_find (active_forwards listening_9001) (JNum 9001) \<noteq> None
   \<and> start_forwarding free_ports (JNum 9001) (JStr ''10.0.0.1'') (JNum 80) listening_9001
       = (Inr False, listening_9001)
   \<and> mapping_record mapping_9002
   \<and> port_set (active_forwards (snd (reload_mappings free_ports file_9002 listening_9001))) = {JNum 9002}
   \<and> port_set (active_forwards (snd (start_all_forwards free_ports file_9002 listening_9001)))
       = {JNum 9001, JNum 9002}"
  using live_ports_follow_loaded_mappings[OF reachable_listening_9001,
      of "JNum 9001" free_ports "JStr ''10.0.0.1''" "JNum 80" file_9002]
  by (simp add: listening_9001_eq) (auto simp: forwarder_eval port_set_def snapshot_ports_def)

text \<open>
  Claim C6 as stated fails for \<^verbatim>\<open>start_all_forwards\<close>: started on port 9001 and then
  started again from a file that maps port 9002 only, the forwarder keeps the listener on
  9001, a port that is not in the loaded mappings.
\<close>

theorem start_all_keeps_stale_listener_counterexample:
  "reachable listening_9001
   \<and> snapshot_ports file_9002 = {JNum 9002}
   \<and> port_set (active_forwards (snd (start_all_forwards free_ports file_9002 listening_9001)))
       = {JNum 9001, JNum 9002}
   \<and> port_set (active_forwards (snd (start_all_forwards free_ports file_9002 listening_9001)))
       \<noteq> snapshot_ports file_9002"
  using reachable_listening_9001 snapshot_ports_9002 start_all_9002_ports by auto

section \<open>Properties of a session\<close>

lemma forward_idle:
  "forward src dst (replicate n NotReady) =
     \<lparr>calls = replicate n (CallSelect src), bytes_read = [], bytes_written = [],
      waited = n, state = Polling\<rparr>"
  by (induction n) (simp_all add: ended_def turn_def)

lemma forward_calls_kind:
  "c \<in> set (calls (forward src dst ps)) \<Longrightarrow>
     c = CallSelect src \<or> c = CallRecv src \<or> (\<exists>d. d \<noteq> [] \<and> c = CallSend dst d)"
proof (induction src dst ps rule: forward.induct)
  case (5 src dst d out ps)
  then show ?case
    by (cases out) (auto simp: ended_def turn_def split: if_splits)
qed (auto simp: ended_def turn_def)

lemma forward_complete_sends:
  "sends_complete ps \<Longrightarrow> state (forward src dst ps) \<noteq> EndedError
     \<Longrightarrow> bytes_written (forward src dst ps) = bytes_read (forward src dst ps)"
proof (induction src dst ps rule: forward.induct)
  case (5 src dst d out ps)
  then show ?case
    by (cases out) (auto simp: ended_def turn_def split: if_splits)
qed (auto simp: ended_def turn_def)

lemma join_bound: "join now tmo e \<le> now + tmo"
  by (simp add: join_def split: option.splits)

text \<open>
  Claim C2 at a failing input. The client sends four bytes; \<^verbatim>\<open>recv\<close> returns them and
  \<^verbatim>\<open>send\<close> takes two. The loop does not send the rest: the target receives two bytes of
  four, and the loop ends on the client's end of stream as if all had been relayed.
\<close>

theorem short_send_loses_bytes:
  "bytes_read (forward Client Target short_send) = [1, 2, 3, 4]
   \<and> bytes_written (forward Client Target short_send) = [1, 2]
   \<and> state (forward Client Target short_send) = EndedEof"
  by (simp add: short_send_def ended_def turn_def)



text \<open>
  Claim C5, as the code has it. A copy loop only selects and receives on its source and
  sends to its destination: it never shuts down or closes a socket. On an empty
  \<^verbatim>\<open>recv\<close> it ends, and nothing is done to the peer. The sockets are closed, in full,
  by \<^verbatim>\<open>finally\<close> in \<^verbatim>\<open>run\<close>.
\<close>

theorem eof_ends_loop_without_half_close:
  "(\<forall>c \<in> set (calls (forward src dst ps)). \<forall>x. c \<noteq> CallShutdownWr x \<and> c \<noteq> CallClose x)
   \<and> forward src dst (Ready (Received [] out) # ps)
       = \<lparr>calls = [CallSelect src, CallRecv src], bytes_read = [], bytes_written = [],
          waited = 0, state = EndedEof\<rparr>
   \<and> (target_socket (ConnectionHandler_run tmo env) \<longrightarrow>
        final_calls (ConnectionHandler_run tmo env) = [CallClose Target, CallClose Client])"
proof -
  have "\<forall>c \<in> set (calls (forward src dst ps)). \<forall>x. c \<noteq> CallShutdownWr x \<and> c \<noteq> CallClose x"
    using forward_calls_kind[of _ src dst ps] by blast
  moreover have "target_socket (ConnectionHandler_run tmo env) \<longrightarrow>
        final_calls (ConnectionHandler_run tmo env) = [CallClose Target, CallClose Client]"
    by (auto simp: ConnectionHandler_run_def split: prod.splits)
  ultimately show ?thesis by (simp add: ended_def)
qed

lemma run_client_eof:
  "session_calls (ConnectionHandler_run 30 (all_calls_return client_eof idle)) =
     [CallSelect Client, CallRecv Client] @ replicate 60 (CallSelect Target)
       @ [CallClose Target, CallClose Client]"
  by (simp add: session_calls_def ConnectionHandler_run_def run_try_def forward_data_optimized_def
      all_calls_return_def client_eof_def idle_def forward_idle loop_calls_def ended_def Let_def)

text \<open>
  The theorem at a session whose client closes at once while the target stays silent.
\<close>

theorem eof_ends_loop_without_half_close_witness:
  "calls (forward Client Target client_eof) = [CallSelect Client, CallRecv Client]
   \<and> state (forward Client Target client_eof) = EndedEof
   \<and> target_socket (ConnectionHandler_run 30 (all_calls_return client_eof idle))
   \<and> final_calls (ConnectionHandler_run 30 (all_calls_return client_eof idle))
       = [CallClose Target, CallClose Client]"
  using eof_ends_loop_without_half_close[where src = Client and dst = Target and ps = "[]"
      and out = "Sent 0" and tmo = 30 and env = "all_calls_return client_eof idle"]
  by (simp add: client_eof_def ended_def ConnectionHandler_run_def run_try_def all_calls_return_def
      case_prod_beta)

text \<open>
  Claim C5 as stated fails: the client's direction reads end of stream, and no call of the
  session shuts down the write side of the target socket; both sockets are closed in full.
\<close>

theorem no_half_close_on_eof_counterexample:
  "state (forward Client Target client_eof) = EndedEof
   \<and> CallShutdownWr Target \<notin> set (session_calls (ConnectionHandler_run 30 (all_calls_return client_eof idle)))
   \<and> CallClose Target \<in> set (session_calls (ConnectionHandler_run 30 (all_calls_return client_eof idle)))
   \<and> CallClose Client \<in> set (session_calls (ConnectionHandler_run 30 (all_calls_return client_eof idle)))"
  by (simp add: run_client_eof) (simp add: client_eof_def ended_def)

text \<open>
  Claim C8, as the code has it. A loop whose \<^verbatim>\<open>select\<close> keeps timing out is still
  polling after any number of seconds: the loop has no idle time-out. The bound is in
  \<^verbatim>\<open>forward_data_optimized\<close>: its two joins return within twice the time-out, whether
  data flows or not, and \<^verbatim>\<open>run\<close> then closes the sockets.
\<close>

theorem relay_bounded_by_two_timeouts:
  "state (forward src dst (replicate n NotReady)) = Polling
   \<and> returned_at (snd (forward_data_optimized tmo env)) \<le> 2 * tmo"
proof -
  define t1 where "t1 = forward Client Target (client_to_target env)"
  define t2 where "t2 = forward Target Client (target_to_client env)"
  have "join (join 0 tmo (ends_at t1)) tmo (ends_at t2) \<le> join 0 tmo (ends_at t1) + tmo"
    by (rule join_bound)
  also have "\<dots> \<le> (0 + tmo) + tmo" using join_bound[of 0 tmo "ends_at t1"] by simp
  finally have "join (join 0 tmo (ends_at t1)) tmo (ends_at t2) \<le> 2 * tmo" by simp
  then have "returned_at (snd (forward_data_optimized tmo env)) \<le> 2 * tmo"
    by (simp add: forward_data_optimized_def Let_def t1_def t2_def)
  then show ?thesis by (simp add: forward_idle)
qed

lemma relay_idle:
  "forward_data_optimized 30 (all_calls_return idle idle) =
     (None, \<lparr>upward = Some (forward Client Target idle),
             downward = Some (forward Target Client idle), returned_at = 60\<rparr>)"
  by (simp add: forward_data_optimized_def all_calls_return_def idle_def forward_idle
      ends_at_def join_def Let_def)

text \<open>
  The theorem at a session idle in both directions, with the time-out of 30 s.
\<close>

theorem relay_bounded_by_two_timeouts_witness:
  "state (forward Client Target idle) = Polling
   \<and> fst (forward_data_optimized 30 (all_calls_return idle idle)) = None
   \<and> returned_at (snd (forward_data_optimized 30 (all_calls_return idle idle))) = 60"
  using relay_bounded_by_two_timeouts[of Client Target 60 30 "all_calls_return idle idle"]
  by (simp add: relay_idle) (simp add: idle_def forward_idle)

text \<open>
  Claim C8 as stated fails: with a time-out of 30 s, a session idle in both directions is
  kept for 60 s, not 30.
\<close>

theorem idle_session_outlives_timeout_counterexample:
  "state (forward Client Target idle) = Polling
   \<and> state (forward Target Client idle) = Polling
   \<and> returned_at (snd (forward_data_optimized 30 (all_calls_return idle idle))) = 60
   \<and> \<not> returned_at (snd (forward_data_optimized 30 (all_calls_return idle idle))) \<le> 30"
  by (simp add: relay_idle) (simp add: idle_def forward_idle)

section \<open>Properties of the proxy\<close>

text \<open>
  Claim C3 at failing inputs. As soon as the route table holds a route, the loop of
  \<^verbatim>\<open>proxy_handler\<close> reads \<^verbatim>\<open>request.port\<close>, which raises \<^verbatim>\<open>AttributeError\<close> above the
  \<^verbatim>\<open>try\<close>: the handler returns neither its 404 nor its 500 response, whatever the request
  and the upstream. Only with an empty table does it answer 404.
\<close>

theorem proxy_handler_raises_on_port_read:
  "proxy_handler ((k, url) # rs) upstream req = Inl AttributeError
   \<and> proxy_handler routes_9000 refused get_index = Inl AttributeError
   \<and> proxy_handler [] upstream req
       = Inr \<lparr>status = 404, response_headers = text_headers, content = NoMappingFound\<rparr>"
  by (simp add: proxy_handler_def request_port_def routes_9000_def)

text \<open>A reload on a fresh server with the one mapping for port 9000 in the file.\<close>

lemma reload_fresh_server:
  "ProxyServer_reload_mappings repr file_9000 now fresh_server =
     (Inl TypeError, \<lparr>server_routes = [(JNum 9000, ''http://127.0.0.1:9100'')],
                      server_running = False\<rparr>)"
  by (simp add: ProxyServer_reload_mappings_def load_mappings_call_def fresh_server_def
      proxy_load_9000)

text \<open>
  Claim C9 at every input. The handler of \<^verbatim>\<open>POST /reload\<close> awaits the value of a plain
  method, which is \<^verbatim>\<open>None\<close>: the routes are rebuilt by the call, then \<^verbatim>\<open>await\<close> raises
  \<^verbatim>\<open>TypeError\<close> and the JSON response is never built.
\<close>

theorem reload_handler_raises:
  "fst (ProxyServer_reload_mappings repr f now srv) = Inl TypeError
   \<and> server_routes (snd (ProxyServer_reload_mappings repr f now srv))
       = ProxyServer_load_mappings repr f (server_routes srv)"
  by (simp add: ProxyServer_reload_mappings_def load_mappings_call_def)


end
